theory Spec2Isabelle
  imports Complex_Main "HOL-Library.Sublist"
begin

section \<open>Data model\<close>

text \<open>
  The documents of \<^verbatim>\<open>postModel.js\<close> and \<^verbatim>\<open>userModel.js\<close>, with the fields the
  visibility filter, the reaction handlers, the scorer and the listings read or write.
  An ObjectId is a natural number (the handlers only compare ids, for equality through
  \<^verbatim>\<open>toString()\<close> and with \<^verbatim>\<open>$lt\<close> in the store); a \<^verbatim>\<open>Date\<close> is its number of
  milliseconds; a counter (\<^verbatim>\<open>Number\<close>) is an integer.
\<close>

type_synonym objectId = nat

datatype visibility = Public | Moderated | Deleted

text \<open>The five keys of \<^verbatim>\<open>reactions\<close> and \<^verbatim>\<open>reactionUsers\<close> (the five emoji).\<close>

datatype reaction = Heart | ThumbsUp | Joy | Wow | RaisedHands

record post =
  post_id :: objectId
  userId :: objectId
  content :: string
  createdAt :: int
  hashtags :: "string list"
  reactions :: "reaction \<Rightarrow> int"
  reactionUsers :: "reaction \<Rightarrow> objectId list"
  commentCount :: int
  contentWarning :: "string option"
  visibility :: visibility
  impressionCount :: int
  shareCount :: int

text \<open>
  \<^verbatim>\<open>settings.contentFilters.contentFiltering\<close> and \<^verbatim>\<open>showSensitiveContent\<close> are the
  two toggles of the user's \<^verbatim>\<open>settings\<close>.
\<close>

record user =
  user_id :: objectId
  isAdmin :: bool
  blockedUsers :: "objectId list"
  keywordFilters :: "string list"
  contentFiltering :: bool
  showSensitiveContent :: bool

text \<open>A failed request: the HTTP status and the \<^verbatim>\<open>error.code\<close> of the response.\<close>

datatype error = HttpError nat string

section \<open>Strings\<close>

text \<open>
  Two kinds of text. The content of a post and a keyword are strings of the characters
  U+0000 to U+00FF, one \<open>char\<close> each. On them \<^verbatim>\<open>toLowerCase\<close> folds the letters A to Z
  and the capital letters of U+00C0 to U+00DE (the multiplication sign U+00D7 is no
  letter), and \<^verbatim>\<open>String.prototype.includes\<close> (here \<open>includesStr\<close>) is the test for a
  contiguous substring. The query term of a search and the type of a reaction are
  sequences of UTF-16 code units (\<open>jsString\<close>), as the request carries them: for them
  the characters beyond U+00FF matter.
\<close>

type_synonym jsString = "nat list"

definition lowerChar :: "char \<Rightarrow> char" where
  "lowerChar c =
     (let n = (of_char c :: nat)
      in if (65 \<le> n \<and> n \<le> 90) \<or> (192 \<le> n \<and> n \<le> 222 \<and> n \<noteq> 215)
         then char_of (n + 32) else c)"

definition toLowerCase :: "string \<Rightarrow> string" where
  "toLowerCase s = map lowerChar s"

fun includesStr :: "string \<Rightarrow> string \<Rightarrow> bool" where
  "includesStr [] t = (t = [])"
| "includesStr (c # cs) t = (prefix t (c # cs) \<or> includesStr cs t)"

text \<open>A string field is truthy when it is set and not empty.\<close>

fun truthy :: "string option \<Rightarrow> bool" where
  "truthy None = False"
| "truthy (Some s) = (s \<noteq> [])"

section \<open>The visibility filter (\<^verbatim>\<open>postUtils.js\<close>)\<close>

definition containsSensitiveContent :: "string \<Rightarrow> string list \<Rightarrow> bool" where
  "containsSensitiveContent c keywords =
     (if keywords = [] then False
      else (let contentLower = toLowerCase c
            in list_ex (\<lambda>keyword. includesStr contentLower (toLowerCase keyword)) keywords))"

text \<open>
  The callback that \<^verbatim>\<open>filterPostsForUser\<close> passes to \<^verbatim>\<open>posts.filter\<close> for a signed-in
  user, with the source's order of checks: blocked author, content warning, keyword
  filters, visibility.
\<close>

definition keepForUser :: "user \<Rightarrow> post \<Rightarrow> bool" where
  "keepForUser u p =
     (if userId p \<in> set (blockedUsers u) then False
      else if contentFiltering u \<and> truthy (contentWarning p) \<and> \<not> showSensitiveContent u
        then False
      else if contentFiltering u \<and> keywordFilters u \<noteq> []
              \<and> containsSensitiveContent (content p) (keywordFilters u)
        then False
      else if visibility p \<noteq> Public then False
      else True)"

definition filterPostsForUser :: "post list \<Rightarrow> user option \<Rightarrow> post list" where
  "filterPostsForUser ps usr =
     (case usr of
        None \<Rightarrow> filter (\<lambda>p. visibility p = Public) ps
      | Some u \<Rightarrow> filter (keepForUser u) ps)"

section \<open>The store\<close>

text \<open>
  The collections the handlers query. A comment carries what \<^verbatim>\<open>getPost\<close> reads of it; a
  category is a document of \<^verbatim>\<open>categoryModel\<close> with its slug, its active flag and its
  hashtags. The store always answers. The handlers' catch-all (500 \<^verbatim>\<open>SERVER_001\<close> when a
  step throws) is a branch of the model where the failing step is modelled: a reloaded
  post that is missing, a search service that throws.
\<close>

record comment =
  comment_id :: objectId
  comment_userId :: objectId
  postId :: objectId
  parentId :: "objectId option"
  comment_visibility :: visibility
  comment_createdAt :: int

record category =
  slug :: string
  cat_isActive :: bool
  cat_hashtags :: "string list"

record store =
  posts :: "post list"
  comments :: "comment list"
  categories :: "category list"

definition findById :: "post list \<Rightarrow> objectId \<Rightarrow> post option" where
  "findById ps i = find (\<lambda>p. post_id p = i) ps"

text \<open>\<^verbatim>\<open>findByIdAndUpdate\<close> changes the one document with the id, when there is one.\<close>

fun findByIdAndUpdate :: "post list \<Rightarrow> objectId \<Rightarrow> (post \<Rightarrow> post) \<Rightarrow> post list" where
  "findByIdAndUpdate [] i f = []"
| "findByIdAndUpdate (p # ps) i f =
     (if post_id p = i then f p # ps else p # findByIdAndUpdate ps i f)"

text \<open>
  \<^verbatim>\<open>.sort({ createdAt: -1 })\<close>: descending creation time. The store leaves the order of
  documents with equal keys open; the model keeps them in the order of the collection.
\<close>

definition sortByCreatedAtDesc :: "post list \<Rightarrow> post list" where
  "sortByCreatedAtDesc ps = sort_key (\<lambda>p. - createdAt p) ps"

definition sortCommentsDesc :: "comment list \<Rightarrow> comment list" where
  "sortCommentsDesc cs = sort_key (\<lambda>c. - comment_createdAt c) cs"

section \<open>Single-post lookup (\<^verbatim>\<open>postController.getPost\<close>)\<close>

record postView =
  view_post :: post
  view_comments :: "comment list"

definition getPost :: "store \<Rightarrow> objectId \<Rightarrow> user option \<Rightarrow> store \<times> (error + postView)" where
  "getPost st i usr =
     (case findById (posts st) i of
        None \<Rightarrow> (st, Inl (HttpError 404 ''POST_001''))
      | Some post \<Rightarrow>
          if visibility post \<noteq> Public
             \<and> (case usr of
                   None \<Rightarrow> True
                 | Some u \<Rightarrow> userId post \<noteq> user_id u \<and> \<not> isAdmin u)
          then (st, Inl (HttpError 403 ''AUTH_003''))
          else
            (let st' = st\<lparr>posts := findByIdAndUpdate (posts st) i
                          (\<lambda>p. p\<lparr>impressionCount := impressionCount p + 1\<rparr>)\<rparr>;
                 cs = take 10 (sortCommentsDesc
                        (filter (\<lambda>c. postId c = i \<and> parentId c = None
                                      \<and> comment_visibility c = Public) (comments st)));
                 filteredComments =
                   (case usr of
                      Some u \<Rightarrow> filter (\<lambda>c. comment_userId c \<notin> set (blockedUsers u)) cs
                    | None \<Rightarrow> cs)
             in (st', Inr \<lparr>view_post = post, view_comments = filteredComments\<rparr>)))"

section \<open>Reactions (\<^verbatim>\<open>postController.addReaction\<close>, \<^verbatim>\<open>removeReaction\<close>)\<close>










section \<open>The engagement scorer (\<^verbatim>\<open>postSchema.methods.updateEngagementScore\<close>)\<close>

text \<open>
  \<^verbatim>\<open>x || 0\<close> on a number. Numbers are modelled exactly: the counters as integers, the
  score as a real number, \<^verbatim>\<open>Math.exp\<close> as the exponential function. The first argument
  is \<^verbatim>\<open>Date.now()\<close>. The value is the one the method stores in \<^verbatim>\<open>engagementScore\<close> and
  returns.
\<close>

definition orZero :: "int \<Rightarrow> int" where
  "orZero x = (if x = 0 then 0 else x)"

definition reactionTotal :: "post \<Rightarrow> int" where
  "reactionTotal p =
     orZero (reactions p Heart) + orZero (reactions p ThumbsUp) + orZero (reactions p Joy)
     + orZero (reactions p Wow) + orZero (reactions p RaisedHands)"

definition updateEngagementScore :: "int \<Rightarrow> post \<Rightarrow> real" where
  "updateEngagementScore now p =
     (let ageInHours = real_of_int (now - createdAt p) / (1000 * 60 * 60);
          decayFactor = exp (- ageInHours / 24)
      in (real_of_int (reactionTotal p) * 1
          + real_of_int (orZero (commentCount p)) * 2
          + real_of_int (orZero (shareCount p)) * 3
          + real_of_int (orZero (impressionCount p)) * 0.1) * decayFactor)"

section \<open>Listings\<close>

text \<open>
  The \<^verbatim>\<open>limit\<close> of the query string: absent (the default 15) or a non-negative integer,
  as \<^verbatim>\<open>parseInt\<close> reads it. A cursor is absent or an ObjectId.
\<close>

definition requestedLimit :: "nat option \<Rightarrow> nat" where
  "requestedLimit l = (case l of None \<Rightarrow> 15 | Some n \<Rightarrow> n)"

record page =
  page_posts :: "post list"
  nextCursor :: "objectId option"
  hasMore :: bool

text \<open>
  The tail that the cursor listings share, word for word: from the fetched documents
  and the page size, \<^verbatim>\<open>hasMore\<close>, the \<^verbatim>\<open>pop\<close> of the extra document, the user's filter
  and the next cursor.
\<close>

definition finishPage :: "nat \<Rightarrow> user option \<Rightarrow> post list \<Rightarrow> page" where
  "finishPage n usr fetched =
     (let more = length fetched > n;
          ps = (if more then butlast fetched else fetched);
          filteredPosts = (case usr of Some u \<Rightarrow> filterPostsForUser ps (Some u) | None \<Rightarrow> ps);
          cursor = (if length filteredPosts > 0 then Some (post_id (last filteredPosts)) else None)
      in \<lparr>page_posts = filteredPosts, nextCursor = cursor, hasMore = more\<rparr>)"

definition feedQuery :: "user option \<Rightarrow> objectId option \<Rightarrow> post \<Rightarrow> bool" where
  "feedQuery usr cursor p =
     (visibility p = Public
      \<and> (case cursor of None \<Rightarrow> True | Some c \<Rightarrow> post_id p < c)
      \<and> (case usr of
            None \<Rightarrow> True
          | Some u \<Rightarrow> if blockedUsers u \<noteq> [] then userId p \<notin> set (blockedUsers u) else True))"

definition getPersonalizedFeed ::
  "store \<Rightarrow> user option \<Rightarrow> objectId option \<Rightarrow> nat option \<Rightarrow> page" where
  "getPersonalizedFeed st usr cursor limit =
     (let parsedLimit = min (requestedLimit limit) 50;
          fetched = take (parsedLimit + 1)
                      (sortByCreatedAtDesc (filter (feedQuery usr cursor) (posts st)))
      in finishPage parsedLimit usr fetched)"

definition categoryQuery :: "string list \<Rightarrow> objectId option \<Rightarrow> post \<Rightarrow> bool" where
  "categoryQuery categoryHashtags cursor p =
     (visibility p = Public
      \<and> (if categoryHashtags \<noteq> []
          then list_ex (\<lambda>h. h \<in> set categoryHashtags) (hashtags p) else True)
      \<and> (case cursor of None \<Rightarrow> True | Some c \<Rightarrow> post_id p < c))"

definition getCategoryPosts ::
  "store \<Rightarrow> string \<Rightarrow> user option \<Rightarrow> objectId option \<Rightarrow> nat option \<Rightarrow> error + page" where
  "getCategoryPosts st i usr cursor limit =
     (case find (\<lambda>c. slug c = i \<and> cat_isActive c) (categories st) of
        None \<Rightarrow> Inl (HttpError 404 ''SEARCH_003'')
      | Some cat \<Rightarrow>
          (let fetched = take (requestedLimit limit + 1)
                           (sortByCreatedAtDesc
                              (filter (categoryQuery (cat_hashtags cat) cursor) (posts st)))
           in Inr (finishPage (requestedLimit limit) usr fetched)))"

section \<open>Search (\<^verbatim>\<open>searchController.searchPosts\<close>)\<close>

text \<open>
  \<^verbatim>\<open>String.prototype.trim\<close> removes the white space and the line terminators of
  ECMAScript from both ends: tab, line feed, vertical tab, form feed, carriage return,
  space, the no-break space U+00A0, U+1680, U+2000 to U+200A, the line and paragraph
  separators U+2028 and U+2029, U+202F, U+205F, U+3000 and the byte order mark U+FEFF.
  Each of them is one code unit.
\<close>

definition isWhitespace :: "nat \<Rightarrow> bool" where
  "isWhitespace c =
     (c \<in> set [0x9, 0xA, 0xB, 0xC, 0xD, 0x20, 0xA0, 0x1680, 0x2028, 0x2029, 0x202F, 0x205F,
               0x3000, 0xFEFF]
      \<or> (0x2000 \<le> c \<and> c \<le> 0x200A))"

definition trim :: "jsString \<Rightarrow> jsString" where
  "trim s = rev (dropWhile isWhitespace (rev (dropWhile isWhitespace s)))"

record searchOptions =
  opt_from :: nat
  opt_size :: nat
  opt_sortBy :: string
  opt_language :: "string option"

record searchResults =
  results :: "post list"
  sr_hasMore :: bool
  total :: nat

record searchResponse =
  resp_results :: "post list"
  resp_nextCursor :: "nat option"
  resp_hasMore :: bool
  resp_total :: nat

text \<open>
  The search service is a collaborator of the controller: a parameter, which answers
  with results or throws (\<open>Inl\<close>, the message). The query term \<^verbatim>\<open>q\<close> is absent or a
  string of the request; the cursor is absent or the offset \<^verbatim>\<open>parseInt\<close> reads;
  \<^verbatim>\<open>sortBy\<close> defaults to \<^verbatim>\<open>relevance\<close>.
\<close>

definition searchPosts ::
  "(jsString \<Rightarrow> searchOptions \<Rightarrow> user option \<Rightarrow> string + searchResults)
   \<Rightarrow> jsString option \<Rightarrow> nat option \<Rightarrow> nat option \<Rightarrow> string option \<Rightarrow> string option
   \<Rightarrow> user option \<Rightarrow> error + searchResponse" where
  "searchPosts service q cursor limit sortBy language usr =
     (case q of
        None \<Rightarrow> Inl (HttpError 400 ''SEARCH_001'')
      | Some qterm \<Rightarrow>
          if qterm = [] \<or> trim qterm = [] then Inl (HttpError 400 ''SEARCH_001'')
          else
            (let from = (case cursor of None \<Rightarrow> 0 | Some c \<Rightarrow> c);
                 opts = \<lparr>opt_from = from, opt_size = requestedLimit limit,
                         opt_sortBy = (case sortBy of None \<Rightarrow> ''relevance'' | Some s \<Rightarrow> s),
                         opt_language = language\<rparr>
             in (case service (trim qterm) opts usr of
                   Inl msg \<Rightarrow> Inl (HttpError 500 ''SERVER_001'')
                 | Inr found \<Rightarrow>
                     Inr \<lparr>resp_results = results found,
                          resp_nextCursor =
                            (if sr_hasMore found then Some (from + length (results found))
                             else None),
                          resp_hasMore = sr_hasMore found,
                          resp_total = total found\<rparr>)))"

section \<open>Hypotheses on the store and example documents\<close>

text \<open>
  ObjectIds grow with the creation time in the usual case; the cursor listings compare
  \<^verbatim>\<open>_id\<close> with the cursor while they sort by \<^verbatim>\<open>createdAt\<close>. A collection where the
  two orders agree: one post has the smaller id exactly when it was created earlier.
\<close>

definition idsFollowCreation :: "post list \<Rightarrow> bool" where
  "idsFollowCreation ps =
     list_all (\<lambda>p. list_all (\<lambda>q. (post_id p < post_id q) = (createdAt p < createdAt q)) ps) ps"

abbreviation newestFirst :: "post list \<Rightarrow> bool" where
  "newestFirst ps \<equiv> sorted_wrt (\<lambda>a b. createdAt b \<le> createdAt a) ps"


text \<open>
  A post as \<^verbatim>\<open>Post.create\<close> stores it (the schema's defaults), a user with the schema's
  default settings, and the stores of the examples below.
\<close>

definition newPost :: "objectId \<Rightarrow> objectId \<Rightarrow> int \<Rightarrow> post" where
  "newPost i a t =
     \<lparr>post_id = i, userId = a, content = ''hello'', createdAt = t, hashtags = [],
      reactions = (\<lambda>k. 0), reactionUsers = (\<lambda>k. []), commentCount = 0,
      contentWarning = None, visibility = Public, impressionCount = 0, shareCount = 0\<rparr>"

definition newUser :: "objectId \<Rightarrow> objectId list \<Rightarrow> user" where
  "newUser i blocked =
     \<lparr>user_id = i, isAdmin = False, blockedUsers = blocked, keywordFilters = [],
      contentFiltering = True, showSensitiveContent = False\<rparr>"

definition storeOf :: "post list \<Rightarrow> store" where
  "storeOf ps = \<lparr>posts = ps, comments = [], categories = []\<rparr>"

definition moderatedPost :: "objectId \<Rightarrow> objectId \<Rightarrow> int \<Rightarrow> post" where
  "moderatedPost i a t = (newPost i a t)\<lparr>visibility := Moderated\<rparr>"



text \<open>Ten reactions, two comments, no share, a hundred impressions; created at 1000 ms.\<close>

definition scoredPost :: post where
  "scoredPost = (newPost 10 2 1000)\<lparr>reactions := (\<lambda>k. 0)(Heart := 4, ThumbsUp := 6),
                   commentCount := 2, shareCount := 0, impressionCount := 100\<rparr>"


text \<open>Three posts whose ids do not follow their creation times.\<close>

definition skewedStore :: store where
  "skewedStore = storeOf [newPost 3 1 100, newPost 5 1 50, newPost 1 1 10]"

definition taggedPost :: "objectId \<Rightarrow> objectId \<Rightarrow> int \<Rightarrow> post" where
  "taggedPost i a t = (newPost i a t)\<lparr>hashtags := [''tech'']\<rparr>"

definition techCategory :: category where
  "techCategory = \<lparr>slug = ''tech'', cat_isActive = True, cat_hashtags = [''tech'', ''code'']\<rparr>"

definition alignedStore :: store where
  "alignedStore = \<lparr>posts = [taggedPost 1 1 10, taggedPost 2 1 20, taggedPost 3 1 30],
                    comments = [], categories = [techCategory]\<rparr>"

text \<open>A hundred and one public posts of the category \<^verbatim>\<open>tech\<close>.\<close>

definition bigStore :: store where
  "bigStore = \<lparr>posts = map (\<lambda>i. taggedPost i 1 (int i)) [1..<102],
                comments = [], categories = [techCategory]\<rparr>"

text \<open>A search service that finds nothing.\<close>

definition noService :: "jsString \<Rightarrow> searchOptions \<Rightarrow> user option \<Rightarrow> string + searchResults" where
  "noService q opts usr = Inr \<lparr>results = [], sr_hasMore = False, total = 0\<rparr>"

section \<open>Properties of the visibility filter\<close>

lemma filterPostsForUser_set:
  "set (filterPostsForUser ps usr) \<subseteq> set ps"
  by (cases usr) (auto simp: filterPostsForUser_def)

lemma filterPostsForUser_public:
  "p \<in> set (filterPostsForUser ps usr) \<Longrightarrow> visibility p = Public"
  by (cases usr) (auto simp: filterPostsForUser_def keepForUser_def split: if_splits)

lemma feed_posts_kept:
  "set (page_posts (getPersonalizedFeed st (Some v) cursor limit)) \<subseteq> {p. keepForUser v p}"
  by (auto simp: getPersonalizedFeed_def finishPage_def Let_def filterPostsForUser_def)

text \<open>
  C10. For every viewer (also none) and every list of posts, \<^verbatim>\<open>filterPostsForUser\<close>
  returns a subsequence of its input: the kept posts are posts of the input, unchanged
  and in their order. Filtering the result again for the same viewer changes nothing.
\<close>

theorem filterPostsForUser_subseq_idempotent:
  "subseq (filterPostsForUser ps usr) ps
   \<and> filterPostsForUser (filterPostsForUser ps usr) usr = filterPostsForUser ps usr"
  by (cases usr) (simp_all add: filterPostsForUser_def)

text \<open>
  C1, as stated, fails in the direction from the author to the viewer. User 2 has
  blocked user 1; user 1 has blocked nobody. The filter keeps the public post of user 2
  for user 1, and the personalized feed of user 1 returns it: neither reads the
  author's \<^verbatim>\<open>blockedUsers\<close>.
\<close>

theorem reverse_block_not_excluded:
  "user_id (newUser 2 [1]) = userId (newPost 10 2 0)
   \<and> user_id (newUser 1 []) \<in> set (blockedUsers (newUser 2 [1]))
   \<and> filterPostsForUser [newPost 10 2 0] (Some (newUser 1 [])) = [newPost 10 2 0]
   \<and> page_posts (getPersonalizedFeed (storeOf [newPost 10 2 0]) (Some (newUser 1 [])) None None)
       = [newPost 10 2 0]"
  by (simp add: newUser_def newPost_def storeOf_def filterPostsForUser_def keepForUser_def
      getPersonalizedFeed_def finishPage_def feedQuery_def sortByCreatedAtDesc_def
      requestedLimit_def)

text \<open>
  C1, amended. For every viewer \<open>v\<close> and every post \<open>i\<close>: if \<open>v\<close>'s \<^verbatim>\<open>blockedUsers\<close>
  contains the author of \<open>i\<close>, the filter excludes \<open>i\<close> for \<open>v\<close>, whatever the other fields
  of \<open>i\<close> and \<open>v\<close> are, and the personalized feed of \<open>v\<close> does not return \<open>i\<close>.
\<close>

theorem blocked_author_excluded:
  "userId i \<in> set (blockedUsers v) \<Longrightarrow>
     i \<notin> set (filterPostsForUser ps (Some v))
     \<and> i \<notin> set (page_posts (getPersonalizedFeed st (Some v) cursor limit))"
  using feed_posts_kept[of st v cursor limit]
  by (auto simp: filterPostsForUser_def keepForUser_def)

text \<open>User 1 has blocked user 2: the post of user 2 goes, the post of user 3 stays.\<close>

theorem blocked_author_excluded_witness:
  "userId (newPost 10 2 0) \<in> set (blockedUsers (newUser 1 [2]))
   \<and> filterPostsForUser [newPost 10 2 0, newPost 11 3 5] (Some (newUser 1 [2]))
       = [newPost 11 3 5]
   \<and> newPost 10 2 0 \<notin> set (page_posts (getPersonalizedFeed
         (storeOf [newPost 10 2 0, newPost 11 3 5]) (Some (newUser 1 [2])) None None))"
proof -
  have b: "userId (newPost 10 2 0) \<in> set (blockedUsers (newUser 1 [2]))"
    by (simp add: newPost_def newUser_def)
  have f: "filterPostsForUser [newPost 10 2 0, newPost 11 3 5] (Some (newUser 1 [2]))
       = [newPost 11 3 5]"
    by (simp add: newUser_def newPost_def filterPostsForUser_def keepForUser_def)
  from blocked_author_excluded[OF b, of "[newPost 10 2 0, newPost 11 3 5]"
         "storeOf [newPost 10 2 0, newPost 11 3 5]" None None] b f
  show ?thesis by simp
qed

text \<open>
  C6. A post whose visibility is not \<^verbatim>\<open>public\<close> is excluded by the filter for every
  viewer that is neither its author nor an admin, also for no viewer at all; and
  \<^verbatim>\<open>getPost\<close> of such a post by such a viewer answers 403 (\<^verbatim>\<open>AUTH_003\<close>) and leaves the
  store as it was, instead of returning the post.
\<close>

theorem non_public_hidden:
  assumes "visibility p \<noteq> Public"
      and "case usr of None \<Rightarrow> True | Some u \<Rightarrow> userId p \<noteq> user_id u \<and> \<not> isAdmin u"
  shows "p \<notin> set (filterPostsForUser ps usr)
         \<and> (findById (posts st) i = Some p
              \<longrightarrow> getPost st i usr = (st, Inl (HttpError 403 ''AUTH_003'')))"
  using assms filterPostsForUser_public[of p ps usr]
  by (auto simp: getPost_def)

text \<open>The moderated post 10 of user 2, for an anonymous request and for user 1.\<close>

theorem non_public_hidden_witness:
  "moderatedPost 10 2 0 \<notin> set (filterPostsForUser [newPost 11 2 5, moderatedPost 10 2 0] None)
   \<and> moderatedPost 10 2 0
       \<notin> set (filterPostsForUser [newPost 11 2 5, moderatedPost 10 2 0] (Some (newUser 1 [])))
   \<and> getPost (storeOf [newPost 11 2 5, moderatedPost 10 2 0]) 10 None
       = (storeOf [newPost 11 2 5, moderatedPost 10 2 0], Inl (HttpError 403 ''AUTH_003''))
   \<and> getPost (storeOf [newPost 11 2 5, moderatedPost 10 2 0]) 10 (Some (newUser 1 []))
       = (storeOf [newPost 11 2 5, moderatedPost 10 2 0], Inl (HttpError 403 ''AUTH_003''))"
proof -
  let ?ps = "[newPost 11 2 5, moderatedPost 10 2 0]"
  have v: "visibility (moderatedPost 10 2 0) \<noteq> Public"
    by (simp add: moderatedPost_def)
  have f: "findById (posts (storeOf ?ps)) 10 = Some (moderatedPost 10 2 0)"
    by (simp add: findById_def storeOf_def newPost_def moderatedPost_def)
  have u: "case Some (newUser 1 []) of None \<Rightarrow> True
           | Some u \<Rightarrow> userId (moderatedPost 10 2 0) \<noteq> user_id u \<and> \<not> isAdmin u"
    by (simp add: newUser_def moderatedPost_def newPost_def)
  have n: "case (None :: user option) of None \<Rightarrow> True
           | Some u \<Rightarrow> userId (moderatedPost 10 2 0) \<noteq> user_id u \<and> \<not> isAdmin u"
    by simp
  from non_public_hidden[OF v n, of ?ps "storeOf ?ps" 10]
       non_public_hidden[OF v u, of ?ps "storeOf ?ps" 10] f
  show ?thesis by simp
qed

section \<open>Properties of the reaction handlers\<close>






section \<open>The engagement score\<close>

lemma orZero_id: "orZero x = x"
  by (simp add: orZero_def)

text \<open>
  C3. The scorer returns (reactionTotal * 1 + commentCount * 2 + shareCount * 3 +
  impressionCount * 0.1) * exp(-ageHours / 24), where reactionTotal is the sum of the
  five counters and ageHours is the time since the creation, in hours (3600000 ms). For
  ten reactions, two comments, no share and a hundred impressions, 24 hours after the
  creation, the score is 24 * exp(-1).
\<close>

theorem engagement_score_formula:
  "updateEngagementScore now p =
     (real_of_int (reactions p Heart + reactions p ThumbsUp + reactions p Joy
                   + reactions p Wow + reactions p RaisedHands) * 1
      + real_of_int (commentCount p) * 2 + real_of_int (shareCount p) * 3
      + real_of_int (impressionCount p) * 0.1)
     * exp (- (real_of_int (now - createdAt p) / 3600000) / 24)
   \<and> (reactions p Heart + reactions p ThumbsUp + reactions p Joy
         + reactions p Wow + reactions p RaisedHands = 10
       \<and> commentCount p = 2 \<and> shareCount p = 0 \<and> impressionCount p = 100
       \<and> now = createdAt p + 24 * 3600000
       \<longrightarrow> updateEngagementScore now p = 24 * exp (- 1))"
proof -
  have f: "updateEngagementScore now p =
     (real_of_int (reactions p Heart + reactions p ThumbsUp + reactions p Joy
                   + reactions p Wow + reactions p RaisedHands) * 1
      + real_of_int (commentCount p) * 2 + real_of_int (shareCount p) * 3
      + real_of_int (impressionCount p) * 0.1)
     * exp (- (real_of_int (now - createdAt p) / 3600000) / 24)"
    by (simp add: updateEngagementScore_def reactionTotal_def orZero_id Let_def)
  have s: "updateEngagementScore now p = 24 * exp (- 1)"
    if a: "reactions p Heart + reactions p ThumbsUp + reactions p Joy
         + reactions p Wow + reactions p RaisedHands = 10
       \<and> commentCount p = 2 \<and> shareCount p = 0 \<and> impressionCount p = 100
       \<and> now = createdAt p + 24 * 3600000"
  proof -
    from a have "now - createdAt p = 86400000" by simp
    with a show ?thesis unfolding f by simp
  qed
  from f s show ?thesis by blast
qed

text \<open>\<open>scoredPost\<close>, created at 1000 ms and scored 24 hours later.\<close>

theorem engagement_score_formula_witness:
  "updateEngagementScore (1000 + 24 * 3600000) scoredPost = 24 * exp (- 1)"
  using engagement_score_formula[of "1000 + 24 * 3600000" scoredPost]
  by (simp add: scoredPost_def newPost_def)

section \<open>Properties of the listings\<close>


lemma trimmed_fetch:
  "length fetched \<le> n + 1
     \<Longrightarrow> (if length fetched > n then butlast fetched else fetched) = take n fetched"
  by (auto simp: butlast_conv_take le_Suc_eq)

text \<open>The feed hands at most one post more than its page size to the shared tail.\<close>

lemma getPersonalizedFeed_fetch:
  "\<exists>fetched. length fetched \<le> min (requestedLimit limit) 50 + 1
     \<and> getPersonalizedFeed st usr cursor limit
         = finishPage (min (requestedLimit limit) 50) usr fetched"
  by (rule exI[of _ "take (min (requestedLimit limit) 50 + 1)
                       (sortByCreatedAtDesc (filter (feedQuery usr cursor) (posts st)))"])
     (simp add: getPersonalizedFeed_def Let_def)

lemma filterPostsForUser_length:
  "length (filterPostsForUser ps usr) \<le> length ps"
  by (cases usr) (simp_all add: filterPostsForUser_def)

lemma finishPage_length:
  assumes "length fetched \<le> n + 1"
  shows "length (page_posts (finishPage n usr fetched)) \<le> n"
proof (cases usr)
  case None
  then show ?thesis
    using trimmed_fetch[OF assms] by (simp add: finishPage_def Let_def)
next
  case (Some u)
  have "length (filterPostsForUser (take n fetched) (Some u)) \<le> length (take n fetched)"
    by (rule filterPostsForUser_length)
  then show ?thesis
    using Some trimmed_fetch[OF assms] by (simp add: finishPage_def Let_def)
qed

text \<open>The clamp of the feed: whatever limit is requested, at most 50 posts come back.\<close>

lemma getPersonalizedFeed_at_most_50:
  "length (page_posts (getPersonalizedFeed st usr cursor limit)) \<le> 50"
proof -
  from getPersonalizedFeed_fetch[of limit st usr cursor]
  obtain fetched where f: "length fetched \<le> min (requestedLimit limit) 50 + 1"
      "getPersonalizedFeed st usr cursor limit
         = finishPage (min (requestedLimit limit) 50) usr fetched"
    by blast
  from finishPage_length[OF f(1), of usr] f(2) show ?thesis by simp
qed




text \<open>
  C5, as stated, fails when the ids do not follow the creation times. Post 3 was created
  last and post 5 before it. The first page of two returns the posts 3 and 5 and the
  cursor 5; the page requested with this cursor returns post 3 again.
\<close>

theorem next_page_repeats_item:
  "nextCursor (getPersonalizedFeed skewedStore None None (Some 2)) = Some 5
   \<and> newPost 3 1 100 \<in> set (page_posts (getPersonalizedFeed skewedStore None None (Some 2)))
   \<and> newPost 3 1 100 \<in> set (page_posts (getPersonalizedFeed skewedStore None (Some 5) (Some 2)))"
  by (simp add: skewedStore_def getPersonalizedFeed_def storeOf_def requestedLimit_def
      feedQuery_def sortByCreatedAtDesc_def newPost_def finishPage_def)

lemma newestFirst_sort: "newestFirst (sortByCreatedAtDesc ps)"
proof -
  have "sorted (map (\<lambda>p. - createdAt p) (sortByCreatedAtDesc ps))"
    by (simp add: sortByCreatedAtDesc_def)
  then show ?thesis
    by (simp add: sorted_wrt_map)
qed

lemma newestFirst_butlast: "newestFirst ps \<Longrightarrow> newestFirst (butlast ps)"
  by (simp add: butlast_conv_take)

lemma newestFirst_filter: "newestFirst ps \<Longrightarrow> newestFirst (filter P ps)"
  by (rule sorted_wrt_filter)

lemma newestFirst_last:
  "newestFirst ps \<Longrightarrow> y \<in> set ps \<Longrightarrow> createdAt (last ps) \<le> createdAt y"
  by (induction ps) auto

lemma finishPage_newestFirst:
  "newestFirst fetched \<Longrightarrow> newestFirst (page_posts (finishPage n usr fetched))"
  by (cases usr)
     (auto simp: finishPage_def Let_def filterPostsForUser_def newestFirst_butlast
           intro: newestFirst_filter)

lemma finishPage_subset:
  "set (page_posts (finishPage n usr fetched)) \<subseteq> set fetched"
  using filterPostsForUser_set
  by (cases usr) (auto simp: finishPage_def Let_def dest: in_set_butlastD)

lemma finishPage_cursor:
  "nextCursor (finishPage n usr fetched) = Some c
     \<Longrightarrow> page_posts (finishPage n usr fetched) \<noteq> []
         \<and> c = post_id (last (page_posts (finishPage n usr fetched)))"
  by (auto simp: finishPage_def Let_def split: if_splits)

text \<open>The cursor is the id of a fetched post that is no newer than any post of the page.\<close>

lemma finishPage_cursor_oldest:
  assumes "newestFirst fetched"
      and "nextCursor (finishPage n usr fetched) = Some c"
      and "y \<in> set (page_posts (finishPage n usr fetched))"
  shows "\<exists>l \<in> set fetched. post_id l = c \<and> createdAt l \<le> createdAt y"
proof -
  let ?ps = "page_posts (finishPage n usr fetched)"
  from finishPage_cursor[OF assms(2)] have ne: "?ps \<noteq> []" and c: "c = post_id (last ?ps)"
    by auto
  have "last ?ps \<in> set fetched"
    using ne finishPage_subset[of n usr fetched] last_in_set[OF ne] by blast
  moreover have "createdAt (last ?ps) \<le> createdAt y"
    by (rule newestFirst_last[OF finishPage_newestFirst[OF assms(1)] assms(3)])
  ultimately show ?thesis using c by blast
qed

lemma idsFollowCreation_D:
  "idsFollowCreation ps \<Longrightarrow> p \<in> set ps \<Longrightarrow> q \<in> set ps
     \<Longrightarrow> (post_id p < post_id q) = (createdAt p < createdAt q)"
  by (simp add: idsFollowCreation_def list_all_iff)

lemma next_page_core:
  assumes agree: "idsFollowCreation ps"
      and f1: "set fetched1 \<subseteq> set ps" "newestFirst fetched1"
      and f2: "set fetched2 \<subseteq> {p \<in> set ps. post_id p < c}"
      and cur: "nextCursor (finishPage n usr fetched1) = Some c"
      and y: "y \<in> set (page_posts (finishPage n usr fetched1))"
      and x: "x \<in> set (page_posts (finishPage m usr' fetched2))"
  shows "createdAt x < createdAt y \<and> post_id x < post_id y \<and> x \<noteq> y"
proof -
  from finishPage_cursor_oldest[OF f1(2) cur y]
  obtain l where l: "l \<in> set fetched1" "post_id l = c" "createdAt l \<le> createdAt y"
    by blast
  have xs: "x \<in> set ps" "post_id x < c"
    using x finishPage_subset[of m usr' fetched2] f2 by auto
  have ys: "y \<in> set ps"
    using y finishPage_subset[of n usr fetched1] f1(1) by auto
  have ls: "l \<in> set ps" using l(1) f1(1) by auto
  have "createdAt x < createdAt l"
    using idsFollowCreation_D[OF agree xs(1) ls] xs(2) l(2) by simp
  then have lt: "createdAt x < createdAt y" using l(3) by simp
  then have "post_id x < post_id y"
    using idsFollowCreation_D[OF agree xs(1) ys] by simp
  with lt show ?thesis by auto
qed

text \<open>
  C5, amended. On the feed and on the category listing, every post of the page
  requested with a cursor has an id strictly below the cursor. For a store without
  mutation between the requests in which the ids follow the creation times, on the feed
  and on the category listing: every post of the page requested with the next cursor of
  a page was created strictly before every post of that page, and has a strictly
  smaller id, so no post of the page is returned again.
\<close>

theorem next_page_below_cursor:
  "(x \<in> set (page_posts (getPersonalizedFeed st usr (Some c) limit')) \<longrightarrow> post_id x < c)
   \<and> (getCategoryPosts st cid usr (Some c) limit' = Inr pg' \<and> x \<in> set (page_posts pg')
       \<longrightarrow> post_id x < c)
   \<and> (idsFollowCreation (posts st)
        \<and> nextCursor (getPersonalizedFeed st usr cursor limit) = Some c
        \<and> y \<in> set (page_posts (getPersonalizedFeed st usr cursor limit))
        \<and> x \<in> set (page_posts (getPersonalizedFeed st usr (Some c) limit'))
       \<longrightarrow> createdAt x < createdAt y \<and> post_id x < post_id y \<and> x \<noteq> y)
   \<and> (idsFollowCreation (posts st)
        \<and> getCategoryPosts st cid usr cursor limit = Inr pg
        \<and> nextCursor pg = Some c \<and> y \<in> set (page_posts pg)
        \<and> getCategoryPosts st cid usr (Some c) limit' = Inr pg'
        \<and> x \<in> set (page_posts pg')
       \<longrightarrow> createdAt x < createdAt y \<and> post_id x < post_id y \<and> x \<noteq> y)"
proof -
  have h1: "post_id x < c"
    if "x \<in> set (page_posts (getPersonalizedFeed st usr (Some c) limit'))"
  proof -
    from that have "x \<in> set (filter (feedQuery usr (Some c)) (posts st))"
      using finishPage_subset
      by (fastforce simp: getPersonalizedFeed_def Let_def sortByCreatedAtDesc_def
            dest: in_set_takeD)
    then show ?thesis by (simp add: feedQuery_def)
  qed
  have h1c: "post_id x < c"
    if a: "getCategoryPosts st cid usr (Some c) limit' = Inr pg' \<and> x \<in> set (page_posts pg')"
  proof -
    from a obtain cat
      where cat: "find (\<lambda>c. slug c = cid \<and> cat_isActive c) (categories st) = Some cat"
      by (cases "find (\<lambda>c. slug c = cid \<and> cat_isActive c) (categories st)")
         (auto simp: getCategoryPosts_def)
    let ?f = "take (requestedLimit limit' + 1) (sortByCreatedAtDesc
                (filter (categoryQuery (cat_hashtags cat) (Some c)) (posts st)))"
    from a cat have "pg' = finishPage (requestedLimit limit') usr ?f"
      by (auto simp: getCategoryPosts_def Let_def)
    with a have "x \<in> set ?f"
      using finishPage_subset[of "requestedLimit limit'" usr ?f] by auto
    then have "x \<in> set (filter (categoryQuery (cat_hashtags cat) (Some c)) (posts st))"
      by (auto simp: sortByCreatedAtDesc_def dest: in_set_takeD)
    then show ?thesis by (simp add: categoryQuery_def)
  qed
  have h2: "createdAt x < createdAt y \<and> post_id x < post_id y \<and> x \<noteq> y"
    if a: "idsFollowCreation (posts st)
        \<and> nextCursor (getPersonalizedFeed st usr cursor limit) = Some c
        \<and> y \<in> set (page_posts (getPersonalizedFeed st usr cursor limit))
        \<and> x \<in> set (page_posts (getPersonalizedFeed st usr (Some c) limit'))"
  proof -
    let ?n = "min (requestedLimit limit) 50" and ?m = "min (requestedLimit limit') 50"
    let ?f1 = "take (?n + 1) (sortByCreatedAtDesc (filter (feedQuery usr cursor) (posts st)))"
    let ?f2 = "take (?m + 1) (sortByCreatedAtDesc (filter (feedQuery usr (Some c)) (posts st)))"
    have s1: "set ?f1 \<subseteq> set (posts st)"
      by (auto simp: sortByCreatedAtDesc_def dest: in_set_takeD)
    have n1: "newestFirst ?f1"
      by (simp add: newestFirst_sort)
    have s2: "set ?f2 \<subseteq> {p \<in> set (posts st). post_id p < c}"
      by (auto simp: sortByCreatedAtDesc_def feedQuery_def dest: in_set_takeD)
    from a have "nextCursor (finishPage ?n usr ?f1) = Some c"
        "y \<in> set (page_posts (finishPage ?n usr ?f1))"
        "x \<in> set (page_posts (finishPage ?m usr ?f2))"
      by (simp_all add: getPersonalizedFeed_def Let_def)
    from next_page_core[OF _ s1 n1 s2 this] a
    show ?thesis by blast
  qed
  have h3: "createdAt x < createdAt y \<and> post_id x < post_id y \<and> x \<noteq> y"
    if a: "idsFollowCreation (posts st)
        \<and> getCategoryPosts st cid usr cursor limit = Inr pg
        \<and> nextCursor pg = Some c \<and> y \<in> set (page_posts pg)
        \<and> getCategoryPosts st cid usr (Some c) limit' = Inr pg'
        \<and> x \<in> set (page_posts pg')"
  proof -
    from a obtain cat
      where cat: "find (\<lambda>c. slug c = cid \<and> cat_isActive c) (categories st) = Some cat"
      by (cases "find (\<lambda>c. slug c = cid \<and> cat_isActive c) (categories st)")
         (auto simp: getCategoryPosts_def)
    let ?n = "requestedLimit limit" and ?m = "requestedLimit limit'"
    let ?f1 = "take (?n + 1) (sortByCreatedAtDesc
                 (filter (categoryQuery (cat_hashtags cat) cursor) (posts st)))"
    let ?f2 = "take (?m + 1) (sortByCreatedAtDesc
                 (filter (categoryQuery (cat_hashtags cat) (Some c)) (posts st)))"
    have s1: "set ?f1 \<subseteq> set (posts st)"
      by (auto simp: sortByCreatedAtDesc_def dest: in_set_takeD)
    have n1: "newestFirst ?f1"
      by (simp add: newestFirst_sort)
    have s2: "set ?f2 \<subseteq> {p \<in> set (posts st). post_id p < c}"
      by (auto simp: sortByCreatedAtDesc_def categoryQuery_def dest: in_set_takeD)
    from a cat have p: "pg = finishPage ?n usr ?f1" "pg' = finishPage ?m usr ?f2"
      by (auto simp: getCategoryPosts_def Let_def)
    from a have "nextCursor (finishPage ?n usr ?f1) = Some c"
        "y \<in> set (page_posts (finishPage ?n usr ?f1))"
        "x \<in> set (page_posts (finishPage ?m usr ?f2))"
      unfolding p[symmetric] by simp_all
    from next_page_core[OF _ s1 n1 s2 this] a
    show ?thesis by blast
  qed
  from h1 h1c h2 h3 show ?thesis by blast
qed

text \<open>
  Three posts whose ids follow their creation times, in pages of two: the first page
  holds the posts 3 and 2, the page after the cursor 2 holds post 1.
\<close>

theorem next_page_below_cursor_witness:
  "idsFollowCreation (posts alignedStore)
   \<and> getPersonalizedFeed alignedStore None None (Some 2)
       = \<lparr>page_posts = [taggedPost 3 1 30, taggedPost 2 1 20], nextCursor = Some 2,
          hasMore = True\<rparr>
   \<and> getPersonalizedFeed alignedStore None (Some 2) (Some 2)
       = \<lparr>page_posts = [taggedPost 1 1 10], nextCursor = Some 1, hasMore = False\<rparr>
   \<and> getCategoryPosts alignedStore ''tech'' None None (Some 2)
       = Inr \<lparr>page_posts = [taggedPost 3 1 30, taggedPost 2 1 20], nextCursor = Some 2,
              hasMore = True\<rparr>
   \<and> getCategoryPosts alignedStore ''tech'' None (Some 2) (Some 2)
       = Inr \<lparr>page_posts = [taggedPost 1 1 10], nextCursor = Some 1, hasMore = False\<rparr>
   \<and> createdAt (taggedPost 1 1 10) < createdAt (taggedPost 2 1 20)
   \<and> post_id (taggedPost 1 1 10) < post_id (taggedPost 2 1 20)
   \<and> taggedPost 1 1 10 \<noteq> taggedPost 2 1 20"
proof -
  have a: "idsFollowCreation (posts alignedStore)"
    by (simp add: idsFollowCreation_def alignedStore_def taggedPost_def newPost_def)
  have p1: "getPersonalizedFeed alignedStore None None (Some 2)
       = \<lparr>page_posts = [taggedPost 3 1 30, taggedPost 2 1 20], nextCursor = Some 2,
          hasMore = True\<rparr>"
    by (simp add: alignedStore_def getPersonalizedFeed_def requestedLimit_def feedQuery_def
        sortByCreatedAtDesc_def taggedPost_def newPost_def finishPage_def)
  have p2: "getPersonalizedFeed alignedStore None (Some 2) (Some 2)
       = \<lparr>page_posts = [taggedPost 1 1 10], nextCursor = Some 1, hasMore = False\<rparr>"
    by (simp add: alignedStore_def getPersonalizedFeed_def requestedLimit_def feedQuery_def
        sortByCreatedAtDesc_def taggedPost_def newPost_def finishPage_def)
  have c1: "getCategoryPosts alignedStore ''tech'' None None (Some 2)
       = Inr \<lparr>page_posts = [taggedPost 3 1 30, taggedPost 2 1 20], nextCursor = Some 2,
              hasMore = True\<rparr>"
    by (simp add: alignedStore_def getCategoryPosts_def requestedLimit_def categoryQuery_def
        techCategory_def sortByCreatedAtDesc_def taggedPost_def newPost_def finishPage_def)
  have c2: "getCategoryPosts alignedStore ''tech'' None (Some 2) (Some 2)
       = Inr \<lparr>page_posts = [taggedPost 1 1 10], nextCursor = Some 1, hasMore = False\<rparr>"
    by (simp add: alignedStore_def getCategoryPosts_def requestedLimit_def categoryQuery_def
        techCategory_def sortByCreatedAtDesc_def taggedPost_def newPost_def finishPage_def)
  from next_page_below_cursor[where x = "taggedPost 1 1 10" and y = "taggedPost 2 1 20"
        and st = alignedStore and usr = None and c = 2 and cursor = None
        and limit = "Some 2" and limit' = "Some 2" and cid = "''tech''"
        and pg = "\<lparr>page_posts = [taggedPost 3 1 30, taggedPost 2 1 20], nextCursor = Some 2,
                   hasMore = True\<rparr>"
        and pg' = "\<lparr>page_posts = [taggedPost 1 1 10], nextCursor = Some 1, hasMore = False\<rparr>"]
       a p1 p2 c1 c2
  show ?thesis by simp
qed

lemma bigStore_all_match:
  "filter (categoryQuery (cat_hashtags techCategory) None) (posts bigStore) = posts bigStore"
  "filter (feedQuery None None) (posts bigStore) = posts bigStore"
  by (simp_all add: bigStore_def categoryQuery_def feedQuery_def techCategory_def
      taggedPost_def newPost_def filter_map o_def)

text \<open>
  C7 at the request that shows the missing clamp: \<^verbatim>\<open>limit=100\<close> on the posts of the
  category \<^verbatim>\<open>tech\<close>, over a store of 101 public posts of that category.
  \<^verbatim>\<open>getCategoryPosts\<close> returns 100 posts, where the personalized feed, asked for 100 posts
  of the same store, returns 50.
\<close>

theorem getCategoryPosts_limit_unclamped:
  "(case getCategoryPosts bigStore ''tech'' None None (Some 100) of
      Inl e \<Rightarrow> False
    | Inr pg \<Rightarrow> length (page_posts pg) = 100 \<and> hasMore pg)
   \<and> length (page_posts (getPersonalizedFeed bigStore None None (Some 100))) = 50"
proof -
  have l: "length (posts bigStore) = 101"
    by (simp add: bigStore_def)
  have f: "find (\<lambda>c. slug c = ''tech'' \<and> cat_isActive c) (categories bigStore)
             = Some techCategory"
    by (simp add: bigStore_def techCategory_def)
  have 1: "getCategoryPosts bigStore ''tech'' None None (Some 100)
             = Inr (finishPage 100 None (take 101 (sortByCreatedAtDesc (posts bigStore))))"
    by (simp add: getCategoryPosts_def f bigStore_all_match requestedLimit_def)
  have 2: "getPersonalizedFeed bigStore None None (Some 100)
             = finishPage 50 None (take 51 (sortByCreatedAtDesc (posts bigStore)))"
    by (simp add: getPersonalizedFeed_def bigStore_all_match requestedLimit_def)
  have 3: "length (sortByCreatedAtDesc (posts bigStore)) = 101"
    by (simp add: sortByCreatedAtDesc_def l)
  show ?thesis
    unfolding 1 2 by (simp add: finishPage_def Let_def 3)
qed

section \<open>Properties of the search\<close>

lemma trim_empty_iff: "trim s = [] \<longleftrightarrow> list_all isWhitespace s"
proof
  assume "trim s = []"
  then have a: "\<forall>x\<in>set (dropWhile isWhitespace s). isWhitespace x"
    by (simp add: trim_def dropWhile_eq_Nil_conv)
  have "dropWhile isWhitespace s = []"
  proof (rule ccontr)
    assume n: "dropWhile isWhitespace s \<noteq> []"
    then have "\<not> isWhitespace (hd (dropWhile isWhitespace s))"
      by (rule hd_dropWhile)
    moreover have "hd (dropWhile isWhitespace s) \<in> set (dropWhile isWhitespace s)"
      using n by simp
    ultimately show False using a by blast
  qed
  then show "list_all isWhitespace s"
    by (simp add: dropWhile_eq_Nil_conv list_all_iff)
next
  assume "list_all isWhitespace s"
  then have d: "dropWhile isWhitespace s = []"
    by (simp add: dropWhile_eq_Nil_conv list_all_iff)
  show "trim s = []" unfolding trim_def d by simp
qed

text \<open>
  C8. A search for posts whose query term is absent, empty or made of white space only
  answers 400 (\<^verbatim>\<open>SEARCH_001\<close>), not a success with no results. A request whose trimmed
  term is not empty gets no such error: when it fails, it is with the 500 of a failure
  of the search service.
\<close>

theorem searchPosts_requires_term:
  "(q = None \<or> (\<exists>s. q = Some s \<and> list_all isWhitespace s)
      \<longrightarrow> searchPosts service q cursor limit sortBy language usr
            = Inl (HttpError 400 ''SEARCH_001''))
   \<and> ((\<exists>s. q = Some s \<and> trim s \<noteq> [])
      \<longrightarrow> (\<forall>e. searchPosts service q cursor limit sortBy language usr = Inl e
               \<longrightarrow> e = HttpError 500 ''SERVER_001''))"
proof -
  have h1: "searchPosts service q cursor limit sortBy language usr
              = Inl (HttpError 400 ''SEARCH_001'')"
    if "q = None \<or> (\<exists>s. q = Some s \<and> list_all isWhitespace s)"
    using that by (auto simp: searchPosts_def trim_empty_iff)
  have h2: "\<forall>e. searchPosts service q cursor limit sortBy language usr = Inl e
               \<longrightarrow> e = HttpError 500 ''SERVER_001''"
    if "\<exists>s. q = Some s \<and> trim s \<noteq> []"
  proof -
    from that obtain s where s: "q = Some s" "trim s \<noteq> []" by blast
    then have "s \<noteq> []" by (auto simp: trim_def)
    with s show ?thesis
      by (auto simp: searchPosts_def Let_def split: sum.splits)
  qed
  from h1 h2 show ?thesis by blast
qed

text \<open>
  No term, the empty term and a term made of a space, a tab, a no-break space, a line
  separator and a byte order mark are refused; the term \<^verbatim>\<open>cats\<close> between spaces is
  searched for, trimmed.
\<close>

theorem searchPosts_requires_term_witness:
  "searchPosts noService None None None None None None = Inl (HttpError 400 ''SEARCH_001'')
   \<and> searchPosts noService (Some []) None None None None None
        = Inl (HttpError 400 ''SEARCH_001'')
   \<and> searchPosts noService (Some [0x20, 0x9, 0xA0, 0x2028, 0xFEFF]) None None None None None
        = Inl (HttpError 400 ''SEARCH_001'')
   \<and> trim [0x20, 0x63, 0x61, 0x74, 0x73, 0x20] = [0x63, 0x61, 0x74, 0x73]
   \<and> searchPosts noService (Some [0x20, 0x63, 0x61, 0x74, 0x73, 0x20]) None None None None None
        = Inr \<lparr>resp_results = [], resp_nextCursor = None, resp_hasMore = False,
               resp_total = 0\<rparr>"
proof -
  have w: "list_all isWhitespace [0x20, 0x9, 0xA0, 0x2028, 0xFEFF]"
    by (simp add: isWhitespace_def)
  have t: "trim [0x20, 0x63, 0x61, 0x74, 0x73, 0x20] = [0x63, 0x61, 0x74, 0x73]"
    by (simp add: trim_def isWhitespace_def)
  have r: "searchPosts noService (Some [0x20, 0x63, 0x61, 0x74, 0x73, 0x20])
             None None None None None
        = Inr \<lparr>resp_results = [], resp_nextCursor = None, resp_hasMore = False,
               resp_total = 0\<rparr>"
    by (simp add: searchPosts_def t noService_def requestedLimit_def)
  from searchPosts_requires_term[of None noService None None None None None]
       searchPosts_requires_term[of "Some []" noService None None None None None]
       searchPosts_requires_term[of "Some [0x20, 0x9, 0xA0, 0x2028, 0xFEFF]" noService
         None None None None None]
       searchPosts_requires_term[of "Some [0x20, 0x63, 0x61, 0x74, 0x73, 0x20]" noService
         None None None None None]
       w t r
  show ?thesis by simp
qed

end
